theory Spec2Isabelle
  imports Complex_Main
begin

section \<open>The live-room relay of server.js\<close>

text \<open>
  The relay is the WebSocket part of \<^verbatim>\<open>src/server.js\<close> (lines 19 to 57) together with
  the \<^verbatim>\<open>liveConnections.size\<close> read of the health endpoint (lines 260 to 266). The
  handlers are JavaScript callbacks that run to completion one at a time; each one is
  modelled as a function from the relay's state to its state after the callback.
\<close>

subsection \<open>Data\<close>

text \<open>A connection is a \<^verbatim>\<open>ws\<close> object; only its identity matters to the relay.\<close>

type_synonym conn = nat

text \<open>
  The value \<^verbatim>\<open>JSON.parse\<close> returns. The relay never looks inside it. A number is a
  finite value or one of the two infinities, which \<^verbatim>\<open>JSON.parse\<close> returns for a literal
  beyond the range of a double. The rounding of doubles is not modelled.
\<close>

datatype js_number = Finite real | PosInfinity | NegInfinity

datatype json =
    JNull
  | JBool bool
  | JNumber js_number
  | JString string
  | JArray "json list"
  | JObject "(string \<times> json) list"

text \<open>The four values of \<^verbatim>\<open>ws.readyState\<close>; the source compares with \<^verbatim>\<open>WebSocket.OPEN\<close>.\<close>

datatype ready_state = CONNECTING | OPEN | CLOSING | CLOSED

text \<open>
  \<^verbatim>\<open>JSON.parse\<close> and \<^verbatim>\<open>JSON.stringify\<close> are built-ins of the language, not code of the
  repository: they are parameters. \<open>None\<close> stands for the \<^verbatim>\<open>SyntaxError\<close> that
  \<^verbatim>\<open>JSON.parse\<close> throws. \<^verbatim>\<open>JSON.stringify\<close> can throw too, a \<^verbatim>\<open>RangeError\<close> on a
  value nested deeper than the engine's stack allows, although \<^verbatim>\<open>JSON.parse\<close> accepts
  the text of such a value: \<open>stringify_throws\<close> says for which values it does, and
  \<open>json_stringify\<close> is the text it returns for the others.
\<close>

record json_api =
  json_parse :: "string \<Rightarrow> json option"
  json_stringify :: "json \<Rightarrow> string"
  stringify_throws :: "json \<Rightarrow> bool"

text \<open>
  What the \<^verbatim>\<open>ws\<close> library decides, at the moment a callback runs: the ready state of
  each connection, and whether \<^verbatim>\<open>send\<close> on a connection throws for a given text.
\<close>

record transport =
  readyState :: "conn \<Rightarrow> ready_state"
  send_throws :: "conn \<Rightarrow> string \<Rightarrow> bool"

text \<open>
  A completed call of \<^verbatim>\<open>send\<close>: the connection it was called on, the text passed, and
  the call site (line 27, the welcome, or line 40, the broadcast).
\<close>

datatype origin = Welcome | Broadcast

datatype delivery = Delivery (target: conn) (payload: string) (origin: origin)

text \<open>
  The state: the global \<^verbatim>\<open>liveConnections\<close> (a JavaScript \<^verbatim>\<open>Set\<close>, which iterates in
  insertion order and holds no element twice) and the trace of completed sends.
\<close>

record relay =
  liveConnections :: "conn list"
  sent :: "delivery list"

datatype exn = SendError conn | RangeError

text \<open>
  How a piece of code ends: it returns, or an exception leaves it. The state reached
  is kept in both cases, since effects before a throw are not undone.
\<close>

datatype outcome = Returned relay | Threw exn relay

subsection \<open>The Set operations the source uses\<close>

definition Set_add :: "conn \<Rightarrow> conn list \<Rightarrow> conn list" where
  "Set_add x xs = (if x \<in> set xs then xs else xs @ [x])"

definition Set_delete :: "conn \<Rightarrow> conn list \<Rightarrow> conn list" where
  "Set_delete x xs = removeAll x xs"

definition Set_size :: "conn list \<Rightarrow> nat" where
  "Set_size xs = length xs"

subsection \<open>The handlers\<close>

text \<open>\<^verbatim>\<open>ws.send(data)\<close>: throws, or completes and is recorded.\<close>

definition ws_send :: "transport \<Rightarrow> conn \<Rightarrow> string \<Rightarrow> origin \<Rightarrow> relay \<Rightarrow> outcome" where
  "ws_send T ws data og s =
     (if send_throws T ws data then Threw (SendError ws) s
      else Returned (s\<lparr>sent := sent s @ [Delivery ws data og]\<rparr>))"

definition welcome_message :: json where
  "welcome_message =
     JObject [(''name'', JString ''System''),
              (''text'', JString ''Welcome to the Live Room! You are now connected.'')]"

text \<open>
  Lines 22 to 30. The callback has no \<^verbatim>\<open>try\<close>: an exception of the welcome send
  leaves it, after the connection was added. The welcome literal is a flat object of two
  strings, which \<^verbatim>\<open>JSON.stringify\<close> always serialises, so only the send can throw.
\<close>

definition on_connection :: "json_api \<Rightarrow> transport \<Rightarrow> relay \<Rightarrow> conn \<Rightarrow> outcome" where
  "on_connection J T s ws =
     ws_send T ws (json_stringify J welcome_message) Welcome
       (s\<lparr>liveConnections := Set_add ws (liveConnections s)\<rparr>)"

text \<open>
  Lines 38 to 42, \<^verbatim>\<open>liveConnections.forEach\<close>: the clients in insertion order. For an
  open client the callback evaluates \<^verbatim>\<open>JSON.stringify(data)\<close> and then calls
  \<^verbatim>\<open>send\<close>; a throw of either ends the iteration.
\<close>

fun forEach_client :: "json_api \<Rightarrow> transport \<Rightarrow> json \<Rightarrow> conn list \<Rightarrow> relay \<Rightarrow> outcome" where
  "forEach_client J T data [] s = Returned s"
| "forEach_client J T data (client # rest) s =
     (if readyState T client = OPEN then
        (if stringify_throws J data then Threw RangeError s
         else
           (case ws_send T client (json_stringify J data) Broadcast s of
              Threw e s' \<Rightarrow> Threw e s'
            | Returned s' \<Rightarrow> forEach_client J T data rest s'))
      else forEach_client J T data rest s)"

text \<open>
  Lines 32 to 46. The \<^verbatim>\<open>try\<close> encloses the parse and the whole loop; the
  \<^verbatim>\<open>catch\<close> only logs (\<^verbatim>\<open>Error parsing message\<close>, whatever was thrown), so the
  callback always returns.
\<close>

definition on_message :: "json_api \<Rightarrow> transport \<Rightarrow> relay \<Rightarrow> conn \<Rightarrow> string \<Rightarrow> relay" where
  "on_message J T s ws message =
     (case json_parse J message of
        None \<Rightarrow> s
      | Some data \<Rightarrow>
          (case forEach_client J T data (liveConnections s) s of
             Returned s' \<Rightarrow> s'
           | Threw e s' \<Rightarrow> s'))"

text \<open>Lines 48 to 51 and 53 to 56.\<close>

definition on_close :: "relay \<Rightarrow> conn \<Rightarrow> relay" where
  "on_close s ws = s\<lparr>liveConnections := Set_delete ws (liveConnections s)\<rparr>"

definition on_error :: "relay \<Rightarrow> conn \<Rightarrow> relay" where
  "on_error s ws = s\<lparr>liveConnections := Set_delete ws (liveConnections s)\<rparr>"

text \<open>Line 264, the \<^verbatim>\<open>liveConnections\<close> field of the health response.\<close>

definition activeCount :: "relay \<Rightarrow> nat" where
  "activeCount s = Set_size (liveConnections s)"

subsection \<open>Event sequences\<close>

datatype event =
    Connection conn
  | Message conn string
  | Close conn
  | Error conn

fun dispatch :: "json_api \<Rightarrow> transport \<Rightarrow> relay \<Rightarrow> event \<Rightarrow> outcome" where
  "dispatch J T s (Connection ws) = on_connection J T s ws"
| "dispatch J T s (Message ws message) = Returned (on_message J T s ws message)"
| "dispatch J T s (Close ws) = Returned (on_close s ws)"
| "dispatch J T s (Error ws) = Returned (on_error s ws)"

text \<open>
  Each event comes with the transport's condition at that moment. An exception that
  leaves a callback is uncaught, and the run ends there.
\<close>

fun run :: "json_api \<Rightarrow> (transport \<times> event) list \<Rightarrow> relay \<Rightarrow> outcome" where
  "run J [] s = Returned s"
| "run J ((T, ev) # rest) s =
     (case dispatch J T s ev of
        Threw e s' \<Rightarrow> Threw e s'
      | Returned s' \<Rightarrow> run J rest s')"

definition initial :: relay where
  "initial = \<lparr>liveConnections = [], sent = []\<rparr>"

fun final :: "outcome \<Rightarrow> relay" where
  "final (Returned s) = s"
| "final (Threw e s) = s"

section \<open>Notions used in the statements\<close>

text \<open>
  The clients a fan-out sends to, the trace entries it adds, and the part of the trace
  that one callback added.
\<close>

definition open_clients :: "transport \<Rightarrow> conn list \<Rightarrow> conn list" where
  "open_clients T cs = filter (\<lambda>c. readyState T c = OPEN) cs"

definition broadcast_to :: "json_api \<Rightarrow> json \<Rightarrow> conn list \<Rightarrow> delivery list" where
  "broadcast_to J data cs = map (\<lambda>c. Delivery c (json_stringify J data) Broadcast) cs"

definition new_deliveries :: "relay \<Rightarrow> relay \<Rightarrow> delivery list" where
  "new_deliveries s s' = drop (length (sent s)) (sent s')"

definition received_by :: "conn \<Rightarrow> delivery list \<Rightarrow> delivery list" where
  "received_by c ds = filter (\<lambda>d. target d = c) ds"

text \<open>
  The deliveries to a connection are none, or the first of them is the welcome sent to
  it at line 27.
\<close>

definition welcome_first :: "json_api \<Rightarrow> conn \<Rightarrow> delivery list \<Rightarrow> bool" where
  "welcome_first J c ds =
     (case received_by c ds of
        [] \<Rightarrow> True
      | d # _ \<Rightarrow> d = Delivery c (json_stringify J welcome_message) Welcome)"

text \<open>
  The invariant behind the ordering of welcome and broadcast: the deliveries to every
  connection start with its welcome, and every member of the set has had a delivery.
\<close>

definition welcomed :: "json_api \<Rightarrow> relay \<Rightarrow> bool" where
  "welcomed J s \<longleftrightarrow>
     (\<forall>c. welcome_first J c (sent s)
        \<and> (c \<in> set (liveConnections s) \<longrightarrow> received_by c (sent s) \<noteq> []))"

text \<open>
  For a sequence of events: the handles of its connect events; whether a handle has a
  close or error event in a sequence; the connected handles that have one after their
  connect event, and those that have none.
\<close>

fun connects :: "event list \<Rightarrow> conn list" where
  "connects [] = []"
| "connects (Connection c # es) = c # connects es"
| "connects (_ # es) = connects es"

definition removed_later :: "conn \<Rightarrow> event list \<Rightarrow> bool" where
  "removed_later c es = (Close c \<in> set es \<or> Error c \<in> set es)"

fun departed :: "event list \<Rightarrow> conn list" where
  "departed [] = []"
| "departed (Connection c # es) = (if removed_later c es then c # departed es else departed es)"
| "departed (_ # es) = departed es"

fun survivors :: "event list \<Rightarrow> conn list" where
  "survivors [] = []"
| "survivors (Connection c # es) = (if removed_later c es then survivors es else c # survivors es)"
| "survivors (_ # es) = survivors es"

fun is_message :: "event \<Rightarrow> bool" where
  "is_message (Message _ _) = True"
| "is_message _ = False"

fun is_connect :: "event \<Rightarrow> bool" where
  "is_connect (Connection _) = True"
| "is_connect _ = False"

fun is_removal :: "event \<Rightarrow> bool" where
  "is_removal (Close _) = True"
| "is_removal (Error _) = True"
| "is_removal _ = False"

definition without_messages :: "(transport \<times> event) list \<Rightarrow> (transport \<times> event) list" where
  "without_messages tes = filter (\<lambda>te. \<not> is_message (snd te)) tes"

text \<open>
  The count as the specification words it: connect events minus close and error events,
  bounded below by 0 (the subtraction of natural numbers stops at 0).
\<close>

definition spec_activeCount :: "event list \<Rightarrow> nat" where
  "spec_activeCount es = length (filter is_connect es) - length (filter is_removal es)"

section \<open>Sample collaborators for the examples\<close>

text \<open>
  A small table in place of the JSON built-ins, covering the texts the examples use. It
  follows the language on them: \<^verbatim>\<open>JSON.parse\<close> reads the literal \<^verbatim>\<open>1e400\<close>, which is
  beyond the range of a double, as \<^verbatim>\<open>Infinity\<close>, and \<^verbatim>\<open>JSON.stringify\<close> writes a number
  that is not finite as \<^verbatim>\<open>null\<close>. Then a transport on which every connection is open
  and no send throws, a relay with three members and a sequence of events.
\<close>

definition quoted :: "string \<Rightarrow> string" where
  "quoted s = [CHR 0x22] @ s @ [CHR 0x22]"

definition welcome_text :: string where
  "welcome_text = ''{'' @ quoted ''name'' @ '':'' @ quoted ''System'' @ '','' @ quoted ''text'' @ '':''
       @ quoted ''Welcome to the Live Room! You are now connected.'' @ ''}''"

definition sample_parse :: "string \<Rightarrow> json option" where
  "sample_parse m =
     (if m = ''null'' then Some JNull
      else if m = ''42'' then Some (JNumber (Finite 42))
      else if m = ''1e400'' then Some (JNumber PosInfinity)
      else if m = ''[true,null]'' then Some (JArray [JBool True, JNull])
      else None)"

definition sample_stringify :: "json \<Rightarrow> string" where
  "sample_stringify v =
     (if v = JNull then ''null''
      else if v = JNumber (Finite 42) then ''42''
      else if v = JNumber PosInfinity then ''null''
      else if v = JArray [JBool True, JNull] then ''[true,null]''
      else if v = welcome_message then welcome_text
      else '''')"

definition sample_json :: json_api where
  "sample_json =
     \<lparr>json_parse = sample_parse, json_stringify = sample_stringify,
      stringify_throws = (\<lambda>v. False)\<rparr>"

text \<open>
  The same table with a text that parses and does not serialise: an array nested 5000
  deep, written as 5000 opening and 5000 closing brackets.
\<close>

fun nested :: "nat \<Rightarrow> json" where
  "nested 0 = JArray []"
| "nested (Suc n) = JArray [nested n]"

definition deep_text :: string where
  "deep_text = replicate 5000 (CHR ''['') @ replicate 5000 (CHR '']'')"

definition deep_value :: json where
  "deep_value = JArray [nested 4998]"

definition limited_parse :: "string \<Rightarrow> json option" where
  "limited_parse m = (if m = deep_text then Some deep_value else sample_parse m)"

definition limited_json :: json_api where
  "limited_json =
     \<lparr>json_parse = limited_parse, json_stringify = sample_stringify,
      stringify_throws = (\<lambda>v. v = deep_value)\<rparr>"

definition all_open :: transport where
  "all_open = \<lparr>readyState = (\<lambda>c. OPEN), send_throws = (\<lambda>c data. False)\<rparr>"

definition room3 :: relay where
  "room3 = \<lparr>liveConnections = [1, 2, 3], sent = []\<rparr>"

definition busy_room :: "(transport \<times> event) list" where
  "busy_room =
     [(all_open, Connection 1), (all_open, Connection 2), (all_open, Message 2 ''null''),
      (all_open, Error 1), (all_open, Close 1), (all_open, Connection 3)]"

section \<open>Basic facts\<close>

lemma ws_send_live: "liveConnections (final (ws_send T ws data og s)) = liveConnections s"
  by (simp add: ws_send_def)

lemma forEach_client_live:
  "liveConnections (final (forEach_client J T data cs s)) = liveConnections s"
proof (induction cs arbitrary: s)
  case Nil
  show ?case by simp
next
  case (Cons c cs)
  show ?case
    using Cons.IH [of "s\<lparr>sent := sent s @ [Delivery c (json_stringify J data) Broadcast]\<rparr>"]
          Cons.IH [of s]
    by (simp add: ws_send_def)
qed

lemma on_message_live: "liveConnections (on_message J T s ws message) = liveConnections s"
proof (cases "json_parse J message")
  case None
  then show ?thesis by (simp add: on_message_def)
next
  case (Some data)
  show ?thesis
    using forEach_client_live [of J T data "liveConnections s" s] Some
    by (cases "forEach_client J T data (liveConnections s) s") (simp_all add: on_message_def)
qed

text \<open>The list that stands for the Set never holds a connection twice.\<close>

lemma dispatch_distinct:
  "distinct (liveConnections s) \<Longrightarrow> distinct (liveConnections (final (dispatch J T s ev)))"
  by (cases ev)
     (simp_all add: on_connection_def ws_send_def Set_add_def on_message_live on_close_def
        on_error_def Set_delete_def distinct_removeAll)

lemma run_distinct:
  "distinct (liveConnections s) \<Longrightarrow> distinct (liveConnections (final (run J tes s)))"
proof (induction tes arbitrary: s)
  case Nil
  then show ?case by simp
next
  case (Cons te tes)
  obtain T ev where te: "te = (T, ev)" by (cases te)
  from Cons.prems have d: "distinct (liveConnections (final (dispatch J T s ev)))"
    by (rule dispatch_distinct)
  show ?case
  proof (cases "dispatch J T s ev")
    case (Returned s')
    with d Cons.IH [of s'] show ?thesis by (simp add: te)
  next
    case (Threw e s')
    with d show ?thesis by (simp add: te)
  qed
qed

lemma reachable_distinct: "distinct (liveConnections (final (run J tes initial)))"
  by (rule run_distinct) (simp add: initial_def)

section \<open>Fan-out of a valid message\<close>

lemma forEach_client_no_throw:
  "\<not> stringify_throws J data \<Longrightarrow>
   \<forall>c\<in>set cs. readyState T c = OPEN \<longrightarrow> \<not> send_throws T c (json_stringify J data) \<Longrightarrow>
   forEach_client J T data cs s =
     Returned (s\<lparr>sent := sent s @ broadcast_to J data (open_clients T cs)\<rparr>)"
proof (induction cs arbitrary: s)
  case Nil
  show ?case by (simp add: open_clients_def broadcast_to_def)
next
  case (Cons c cs)
  then show ?case by (simp add: open_clients_def broadcast_to_def ws_send_def)
qed

lemma forEach_client_unserialisable:
  "stringify_throws J data \<Longrightarrow> final (forEach_client J T data cs s) = s"
  by (induction cs) simp_all

lemma on_message_no_throw:
  assumes "json_parse J message = Some data"
      and "\<not> stringify_throws J data"
      and "\<forall>c\<in>set (liveConnections s).
             readyState T c = OPEN \<longrightarrow> \<not> send_throws T c (json_stringify J data)"
  shows "on_message J T s ws message =
           s\<lparr>sent := sent s @ broadcast_to J data (open_clients T (liveConnections s))\<rparr>"
  using assms forEach_client_no_throw [of J data "liveConnections s" T s]
  by (simp add: on_message_def)

text \<open>
  A value that parses and does not serialise is sent to nobody: the first open client's
  callback throws before its send, and without an open client nothing is sent anyway.
\<close>

lemma on_message_unserialisable:
  assumes "json_parse J message = Some data" and "stringify_throws J data"
  shows "on_message J T s ws message = s"
  using assms(1) forEach_client_unserialisable [OF assms(2), of T "liveConnections s" s]
  by (cases "forEach_client J T data (liveConnections s) s") (simp_all add: on_message_def)

lemma received_by_broadcast:
  "distinct cs \<Longrightarrow>
   received_by c (broadcast_to J data cs) =
     (if c \<in> set cs then [Delivery c (json_stringify J data) Broadcast] else [])"
  by (induction cs) (auto simp: received_by_def broadcast_to_def)

lemma new_deliveries_append: "sent s' = sent s @ ds \<Longrightarrow> new_deliveries s s' = ds"
  by (simp add: new_deliveries_def)

text \<open>
  When the value serialises and no send to an open member throws, every member of the
  set whose state is OPEN, the sender included, gets exactly one new delivery, the
  re-serialised value, and every other connection gets none.
\<close>

lemma serialisable_message_reaches_each_open_member_once:
  assumes "json_parse J message = Some data"
      and "\<not> stringify_throws J data"
      and "distinct (liveConnections s)"
      and "\<forall>c\<in>set (liveConnections s).
             readyState T c = OPEN \<longrightarrow> \<not> send_throws T c (json_stringify J data)"
  shows "sent (on_message J T s ws message) = sent s @ new_deliveries s (on_message J T s ws message)
       \<and> (\<forall>c. received_by c (new_deliveries s (on_message J T s ws message)) =
               (if c \<in> set (liveConnections s) \<and> readyState T c = OPEN
                then [Delivery c (json_stringify J data) Broadcast] else []))"
proof -
  let ?cs = "open_clients T (liveConnections s)"
  have eq: "on_message J T s ws message = s\<lparr>sent := sent s @ broadcast_to J data ?cs\<rparr>"
    using assms(1,2,4) by (rule on_message_no_throw)
  have new: "new_deliveries s (on_message J T s ws message) = broadcast_to J data ?cs"
    by (rule new_deliveries_append) (simp add: eq)
  have d: "distinct ?cs"
    using assms(3) by (simp add: open_clients_def)
  have m: "\<And>c. c \<in> set ?cs \<longleftrightarrow> c \<in> set (liveConnections s) \<and> readyState T c = OPEN"
    by (simp add: open_clients_def)
  have "sent (on_message J T s ws message) = sent s @ new_deliveries s (on_message J T s ws message)"
    by (simp add: new) (simp add: eq)
  moreover have "\<forall>c. received_by c (new_deliveries s (on_message J T s ws message)) =
               (if c \<in> set (liveConnections s) \<and> readyState T c = OPEN
                then [Delivery c (json_stringify J data) Broadcast] else [])"
    by (simp only: new received_by_broadcast [OF d] m) simp
  ultimately show ?thesis by blast
qed

text \<open>
  The \<^verbatim>\<open>send\<close> of the \<^verbatim>\<open>ws\<close> library throws only on a connection that is still
  connecting. Under that contract no send of the loop throws, since the loop sends to
  open clients only; a transport that fails on an open connection reports it by a later
  error event, which removes that connection alone.
\<close>

lemma fan_out_under_the_send_contract:
  assumes "json_parse J message = Some data"
      and "\<not> stringify_throws J data"
      and "\<forall>c text. send_throws T c text \<longrightarrow> readyState T c = CONNECTING"
  shows "on_message J T s ws message =
           s\<lparr>sent := sent s @ broadcast_to J data (open_clients T (liveConnections s))\<rparr>"
proof (rule on_message_no_throw [OF assms(1,2)])
  show "\<forall>c\<in>set (liveConnections s).
          readyState T c = OPEN \<longrightarrow> \<not> send_throws T c (json_stringify J data)"
    using assms(3) by fastforce
qed

lemma deep_text_length: "length deep_text = 10000"
  by (simp add: deep_text_def)

lemma null_is_not_deep: "''null'' \<noteq> deep_text"
proof
  assume "''null'' = deep_text"
  then have "length ''null'' = length deep_text" by (rule arg_cong)
  then show False by (simp add: deep_text_length)
qed

text \<open>
  C1, at a message the code drops. The text of an array nested 5000 deep parses, but
  \<^verbatim>\<open>JSON.stringify\<close> throws on the value inside the callback of the first open client:
  the \<^verbatim>\<open>catch\<close> logs it as a parse error and none of the three open members receives
  anything, where the message \<^verbatim>\<open>null\<close> reaches all three.
\<close>

theorem deep_message_reaches_nobody:
  "json_parse limited_json deep_text = Some deep_value
   \<and> liveConnections room3 = [1, 2, 3]
   \<and> readyState all_open 1 = OPEN
   \<and> readyState all_open 2 = OPEN
   \<and> readyState all_open 3 = OPEN
   \<and> on_message limited_json all_open room3 1 deep_text = room3
   \<and> new_deliveries room3 (on_message limited_json all_open room3 1 deep_text) = []
   \<and> new_deliveries room3 (on_message limited_json all_open room3 1 ''null'') =
       [Delivery 1 ''null'' Broadcast, Delivery 2 ''null'' Broadcast,
        Delivery 3 ''null'' Broadcast]"
proof -
  have p: "json_parse limited_json deep_text = Some deep_value"
    by (simp add: limited_json_def limited_parse_def)
  have t: "stringify_throws limited_json deep_value"
    by (simp add: limited_json_def)
  have d: "on_message limited_json all_open room3 1 deep_text = room3"
    using p t by (rule on_message_unserialisable)
  have n: "new_deliveries room3 (on_message limited_json all_open room3 1 ''null'') =
       [Delivery 1 ''null'' Broadcast, Delivery 2 ''null'' Broadcast,
        Delivery 3 ''null'' Broadcast]"
    by (simp add: on_message_def limited_json_def limited_parse_def null_is_not_deep
          sample_parse_def sample_stringify_def deep_value_def room3_def all_open_def
          ws_send_def new_deliveries_def)
  show ?thesis
    using p d n by (simp add: new_deliveries_def) (simp add: room3_def all_open_def)
qed


section \<open>No schema\<close>

text \<open>
  C8, as the code has it. Whatever value the parse returns, an object with or without a
  name or text field, an array, a number, a string or null, if it serialises then the
  text sent to every open member is \<^verbatim>\<open>JSON.stringify\<close> of exactly that value: the relay
  inspects nothing and changes nothing between the two built-ins.
\<close>

theorem any_parsed_value_is_forwarded_reserialised:
  assumes "json_parse J message = Some data"
      and "\<not> stringify_throws J data"
      and "\<forall>c\<in>set (liveConnections s).
             readyState T c = OPEN \<longrightarrow> \<not> send_throws T c (json_stringify J data)"
  shows "new_deliveries s (on_message J T s ws message) =
           broadcast_to J data (open_clients T (liveConnections s))
       \<and> (\<forall>d\<in>set (new_deliveries s (on_message J T s ws message)).
             payload d = json_stringify J data \<and> origin d = Broadcast)"
proof -
  have "on_message J T s ws message =
          s\<lparr>sent := sent s @ broadcast_to J data (open_clients T (liveConnections s))\<rparr>"
    using assms by (rule on_message_no_throw)
  then have new: "new_deliveries s (on_message J T s ws message) =
          broadcast_to J data (open_clients T (liveConnections s))"
    by (simp add: new_deliveries_def)
  show ?thesis
    by (auto simp: new broadcast_to_def)
qed

theorem any_parsed_value_is_forwarded_reserialised_witness:
  "json_parse sample_json ''[true,null]'' = Some (JArray [JBool True, JNull])
   \<and> \<not> stringify_throws sample_json (JArray [JBool True, JNull])
   \<and> liveConnections room3 = [1, 2, 3]
   \<and> new_deliveries room3 (on_message sample_json all_open room3 3 ''[true,null]'') =
       [Delivery 1 ''[true,null]'' Broadcast, Delivery 2 ''[true,null]'' Broadcast,
        Delivery 3 ''[true,null]'' Broadcast]"
proof -
  have h1: "json_parse sample_json ''[true,null]'' = Some (JArray [JBool True, JNull])"
    by (simp add: sample_json_def sample_parse_def)
  have h2: "\<not> stringify_throws sample_json (JArray [JBool True, JNull])"
    by (simp add: sample_json_def)
  have h3: "\<forall>c\<in>set (liveConnections room3).
         readyState all_open c = OPEN
         \<longrightarrow> \<not> send_throws all_open c (json_stringify sample_json (JArray [JBool True, JNull]))"
    by (simp add: all_open_def)
  have "new_deliveries room3 (on_message sample_json all_open room3 3 ''[true,null]'') =
       [Delivery 1 ''[true,null]'' Broadcast, Delivery 2 ''[true,null]'' Broadcast,
        Delivery 3 ''[true,null]'' Broadcast]"
    using any_parsed_value_is_forwarded_reserialised [OF h1 h2 h3, of 3]
    by (simp add: room3_def open_clients_def broadcast_to_def all_open_def
          sample_json_def sample_stringify_def)
  moreover have "liveConnections room3 = [1, 2, 3]"
    by (simp add: room3_def)
  ultimately show ?thesis using h1 h2 by blast
qed

text \<open>
  The content is not always what came in. The number \<^verbatim>\<open>1e400\<close> is valid JSON; the
  parse returns \<^verbatim>\<open>Infinity\<close> for it, which is written back as \<^verbatim>\<open>null\<close>: every member
  is sent \<^verbatim>\<open>null\<close>, a different value.
\<close>

theorem number_beyond_double_range_is_forwarded_as_null:
  "json_parse sample_json ''1e400'' = Some (JNumber PosInfinity)
   \<and> new_deliveries room3 (on_message sample_json all_open room3 1 ''1e400'') =
       [Delivery 1 ''null'' Broadcast, Delivery 2 ''null'' Broadcast,
        Delivery 3 ''null'' Broadcast]
   \<and> json_parse sample_json ''null'' = Some JNull
   \<and> JNull \<noteq> JNumber PosInfinity"
  by (simp add: on_message_def sample_json_def sample_parse_def sample_stringify_def
        room3_def all_open_def ws_send_def new_deliveries_def)

section \<open>The sender\<close>



section \<open>Connecting\<close>

text \<open>
  C2. When the welcome send does not throw, the connection handler adds the connection
  to the set and sends exactly one text, the serialised welcome message with name
  System and the fixed greeting, to that connection and to no other.
\<close>

theorem connection_is_added_and_welcomed:
  assumes "\<not> send_throws T ws (json_stringify J welcome_message)"
  shows "on_connection J T s ws =
           Returned \<lparr>liveConnections = Set_add ws (liveConnections s),
                     sent = sent s @ [Delivery ws (json_stringify J welcome_message) Welcome]\<rparr>
       \<and> ws \<in> set (Set_add ws (liveConnections s))
       \<and> new_deliveries s (final (on_connection J T s ws)) =
           [Delivery ws (json_stringify J welcome_message) Welcome]
       \<and> welcome_message =
           JObject [(''name'', JString ''System''),
                    (''text'', JString ''Welcome to the Live Room! You are now connected.'')]"
  using assms
  by (simp add: on_connection_def ws_send_def Set_add_def new_deliveries_def welcome_message_def)

theorem connection_is_added_and_welcomed_witness:
  "\<not> send_throws all_open 4 (json_stringify sample_json welcome_message)
   \<and> on_connection sample_json all_open room3 4 =
       Returned \<lparr>liveConnections = [1, 2, 3, 4], sent = [Delivery 4 welcome_text Welcome]\<rparr>"
proof -
  have h: "\<not> send_throws all_open 4 (json_stringify sample_json welcome_message)"
    by (simp add: all_open_def)
  have w: "json_stringify sample_json welcome_message = welcome_text"
    by (simp add: sample_json_def sample_stringify_def welcome_message_def)
  show ?thesis
    using h connection_is_added_and_welcomed [OF h, of room3]
    by (simp add: w room3_def Set_add_def)
qed

section \<open>Malformed messages\<close>

text \<open>
  C3. A message that does not parse leaves the whole state as it was: nothing is sent
  and the set, the sender included, is unchanged.
\<close>

theorem malformed_message_changes_nothing:
  assumes "json_parse J message = None"
  shows "on_message J T s ws message = s
       \<and> new_deliveries s (on_message J T s ws message) = []
       \<and> liveConnections (on_message J T s ws message) = liveConnections s"
  using assms by (simp add: on_message_def new_deliveries_def)

theorem malformed_message_changes_nothing_witness:
  "json_parse sample_json ''{oops'' = None
   \<and> on_message sample_json all_open room3 2 ''{oops'' = room3
   \<and> 2 \<in> set (liveConnections (on_message sample_json all_open room3 2 ''{oops''))"
proof -
  have h: "json_parse sample_json ''{oops'' = None"
    by (simp add: sample_json_def sample_parse_def)
  show ?thesis
    using h malformed_message_changes_nothing [OF h, of all_open room3 2]
    by (simp add: room3_def)
qed

section \<open>Removal\<close>

lemma Set_delete_twice: "Set_delete x (Set_delete x xs) = Set_delete x xs"
  by (simp add: Set_delete_def)

lemma Set_delete_absent: "x \<notin> set xs \<Longrightarrow> Set_delete x xs = xs"
  by (simp add: Set_delete_def)

text \<open>
  C6. Removing twice, by close or by error in any combination, gives the same state as
  removing once, and removing a connection that is not in the set changes nothing. Both
  handlers are total: no exception can leave them.
\<close>

theorem removal_is_idempotent:
  "on_close (on_close s ws) ws = on_close s ws
   \<and> on_error (on_error s ws) ws = on_error s ws
   \<and> on_close (on_error s ws) ws = on_error s ws
   \<and> on_error (on_close s ws) ws = on_close s ws
   \<and> (ws \<notin> set (liveConnections s) \<longrightarrow> on_close s ws = s \<and> on_error s ws = s)"
  by (simp add: on_close_def on_error_def Set_delete_twice Set_delete_absent)

theorem removal_is_idempotent_witness:
  "on_close (on_close room3 2) 2 = \<lparr>liveConnections = [1, 3], sent = []\<rparr>
   \<and> on_error (on_close room3 2) 2 = \<lparr>liveConnections = [1, 3], sent = []\<rparr>
   \<and> 7 \<notin> set (liveConnections room3) \<and> on_close room3 7 = room3 \<and> on_error room3 7 = room3"
proof -
  have h: "7 \<notin> set (liveConnections room3)"
    by (simp add: room3_def)
  have c: "on_close room3 2 = \<lparr>liveConnections = [1, 3], sent = []\<rparr>"
    by (simp add: on_close_def room3_def Set_delete_def)
  show ?thesis
    using h c removal_is_idempotent [of room3 2] removal_is_idempotent [of room3 7]
    by simp
qed

text \<open>
  C9. The message handler never changes the set, whether the message parses or not and
  whether a send throws or not; a connection leaves the set only through its close or
  error handler.
\<close>

theorem fan_out_keeps_the_active_set:
  "liveConnections (on_message J T s ws message) = liveConnections s
   \<and> activeCount (on_message J T s ws message) = activeCount s
   \<and> c \<notin> set (liveConnections (on_close s c))
   \<and> c \<notin> set (liveConnections (on_error s c))"
  by (simp add: on_message_live activeCount_def on_close_def on_error_def Set_delete_def)

section \<open>Welcome before broadcast\<close>

lemma received_by_append: "received_by c (ds @ es) = received_by c ds @ received_by c es"
  by (simp add: received_by_def)

lemma welcome_first_append:
  "welcome_first J c ds \<Longrightarrow> received_by c ds \<noteq> [] \<or> received_by c es = [] \<Longrightarrow>
   welcome_first J c (ds @ es)"
  by (cases "received_by c ds") (auto simp: welcome_first_def received_by_append)

lemma welcome_first_welcome:
  "welcome_first J c ds \<Longrightarrow>
   welcome_first J c (ds @ [Delivery ws (json_stringify J welcome_message) Welcome])"
  by (cases "received_by c ds") (auto simp: welcome_first_def received_by_def)

lemma received_by_none: "c \<notin> target ` set ds \<Longrightarrow> received_by c ds = []"
  by (auto simp: received_by_def filter_empty_conv)

lemma forEach_client_targets:
  "\<exists>ds. sent (final (forEach_client J T data cs s)) = sent s @ ds \<and> target ` set ds \<subseteq> set cs"
proof (cases "stringify_throws J data")
  case True
  then show ?thesis by (simp add: forEach_client_unserialisable)
next
  case serialises: False
  show ?thesis
  proof (induction cs arbitrary: s)
    case Nil
    show ?case by simp
  next
    case (Cons c cs)
    let ?s1 = "s\<lparr>sent := sent s @ [Delivery c (json_stringify J data) Broadcast]\<rparr>"
    show ?case
    proof (cases "readyState T c = OPEN")
      case False
      with Cons.IH [of s] show ?thesis by auto
    next
      case True
      show ?thesis
      proof (cases "send_throws T c (json_stringify J data)")
        case True
        with \<open>readyState T c = OPEN\<close> serialises show ?thesis by (simp add: ws_send_def)
      next
        case False
        from Cons.IH [of ?s1] obtain ds where
          ds: "sent (final (forEach_client J T data cs ?s1)) = sent ?s1 @ ds"
              "target ` set ds \<subseteq> set cs"
          by blast
        have "sent (final (forEach_client J T data (c # cs) s)) =
                sent s @ (Delivery c (json_stringify J data) Broadcast # ds)"
          using True False serialises ds(1) by (simp add: ws_send_def)
        moreover have "target ` set (Delivery c (json_stringify J data) Broadcast # ds) \<subseteq> set (c # cs)"
          using ds(2) by auto
        ultimately show ?thesis by blast
      qed
    qed
  qed
qed

lemma on_message_targets:
  "\<exists>ds. sent (on_message J T s ws message) = sent s @ ds
      \<and> target ` set ds \<subseteq> set (liveConnections s)"
proof (cases "json_parse J message")
  case None
  then show ?thesis by (simp add: on_message_def)
next
  case (Some data)
  have "on_message J T s ws message = final (forEach_client J T data (liveConnections s) s)"
    using Some by (cases "forEach_client J T data (liveConnections s) s") (simp_all add: on_message_def)
  then show ?thesis
    using forEach_client_targets [of J T data "liveConnections s" s] by simp
qed

lemma on_message_welcomed:
  assumes "welcomed J s"
  shows "welcomed J (on_message J T s ws message)"
proof -
  obtain ds where ds: "sent (on_message J T s ws message) = sent s @ ds"
      "target ` set ds \<subseteq> set (liveConnections s)"
    using on_message_targets by blast
  have "welcome_first J c (sent s @ ds)" for c
  proof (rule welcome_first_append)
    show "welcome_first J c (sent s)" using assms by (simp add: welcomed_def)
    show "received_by c (sent s) \<noteq> [] \<or> received_by c ds = []"
    proof (cases "c \<in> set (liveConnections s)")
      case True
      then show ?thesis using assms by (simp add: welcomed_def)
    next
      case False
      then have "c \<notin> target ` set ds" using ds(2) by blast
      then show ?thesis by (simp add: received_by_none)
    qed
  qed
  moreover have "c \<in> set (liveConnections s) \<longrightarrow> received_by c (sent s @ ds) \<noteq> []" for c
    using assms by (simp add: welcomed_def received_by_append)
  ultimately show ?thesis
    by (simp add: welcomed_def ds(1) on_message_live)
qed

lemma on_connection_welcomed:
  assumes "welcomed J s" and "on_connection J T s ws = Returned s'"
  shows "welcomed J s'"
proof -
  have s': "s' = s\<lparr>liveConnections := Set_add ws (liveConnections s),
                   sent := sent s @ [Delivery ws (json_stringify J welcome_message) Welcome]\<rparr>"
    using assms(2) by (auto simp: on_connection_def ws_send_def split: if_splits)
  have "welcome_first J c (sent s')" for c
    using assms(1) by (simp add: s' welcomed_def welcome_first_welcome)
  moreover have "c \<in> set (liveConnections s') \<longrightarrow> received_by c (sent s') \<noteq> []" for c
    using assms(1) by (auto simp: s' welcomed_def Set_add_def received_by_def)
  ultimately show ?thesis by (simp add: welcomed_def)
qed

lemma removal_welcomed:
  "welcomed J s \<Longrightarrow> welcomed J (on_close s ws)"
  "welcomed J s \<Longrightarrow> welcomed J (on_error s ws)"
  by (simp_all add: welcomed_def on_close_def on_error_def Set_delete_def)

lemma dispatch_welcomed:
  "welcomed J s \<Longrightarrow> dispatch J T s ev = Returned s' \<Longrightarrow> welcomed J s'"
  by (cases ev) (auto simp: on_connection_welcomed on_message_welcomed removal_welcomed)

lemma dispatch_threw_sent: "dispatch J T s ev = Threw e s' \<Longrightarrow> sent s' = sent s"
  by (cases ev) (auto simp: on_connection_def ws_send_def split: if_splits)

lemma run_welcome_first:
  "welcomed J s \<Longrightarrow> welcome_first J c (sent (final (run J tes s)))"
proof (induction tes arbitrary: s)
  case Nil
  then show ?case by (simp add: welcomed_def)
next
  case (Cons te tes)
  obtain T ev where te: "te = (T, ev)" by (cases te)
  show ?case
  proof (cases "dispatch J T s ev")
    case (Returned s')
    with Cons.prems have "welcomed J s'" by (simp add: dispatch_welcomed)
    then have "welcome_first J c (sent (final (run J tes s')))" by (rule Cons.IH)
    then show ?thesis by (simp add: te Returned)
  next
    case (Threw e s')
    then have "sent s' = sent s" by (rule dispatch_threw_sent)
    then show ?thesis using Cons.prems by (simp add: te Threw welcomed_def)
  qed
qed

lemma initial_welcomed: "welcomed J initial"
  by (simp add: welcomed_def initial_def welcome_first_def received_by_def)

text \<open>
  C7. After any sequence of events from the empty relay, the deliveries to a connection
  are none at all or begin with its welcome: no broadcast reaches a connection before
  the welcome send.
\<close>

theorem welcome_precedes_every_broadcast:
  "welcome_first J c (sent (final (run J tes initial)))"
  using initial_welcomed by (rule run_welcome_first)

theorem welcome_precedes_every_broadcast_witness:
  "received_by 2 (sent (final (run sample_json
       [(all_open, Connection 1), (all_open, Connection 2), (all_open, Message 1 ''null'')] initial)))
     = [Delivery 2 welcome_text Welcome, Delivery 2 ''null'' Broadcast]
   \<and> welcome_first sample_json 2 (sent (final (run sample_json
       [(all_open, Connection 1), (all_open, Connection 2), (all_open, Message 1 ''null'')] initial)))"
proof -
  have "received_by 2 (sent (final (run sample_json
       [(all_open, Connection 1), (all_open, Connection 2), (all_open, Message 1 ''null'')] initial)))
     = [Delivery 2 welcome_text Welcome, Delivery 2 ''null'' Broadcast]"
    by (simp add: initial_def on_connection_def on_message_def ws_send_def Set_add_def
          all_open_def sample_json_def sample_parse_def sample_stringify_def
          welcome_message_def received_by_def)
  then show ?thesis
    using welcome_precedes_every_broadcast [of sample_json 2
       "[(all_open, Connection 1), (all_open, Connection 2), (all_open, Message 1 ''null'')]"]
    by blast
qed

section \<open>The count of the health endpoint\<close>

lemma connects_split: "length (connects es) = length (departed es) + length (survivors es)"
  by (induction es rule: connects.induct) simp_all

lemma connects_subset: "set (connects es) \<subseteq> set (connects (e # es))"
  by (cases e) auto

lemma run_live_characterised:
  "run J tes s = Returned s' \<Longrightarrow>
   distinct (liveConnections s @ connects (map snd tes)) \<Longrightarrow>
   liveConnections s' =
     filter (\<lambda>c. \<not> removed_later c (map snd tes)) (liveConnections s) @ survivors (map snd tes)"
proof (induction tes arbitrary: s)
  case Nil
  then show ?case by (simp add: removed_later_def)
next
  case (Cons te tes)
  obtain T ev where te: "te = (T, ev)" by (cases te)
  obtain s1 where s1: "dispatch J T s ev = Returned s1" and r: "run J tes s1 = Returned s'"
    using Cons.prems(1) by (cases "dispatch J T s ev") (simp_all add: te)
  let ?es = "map snd tes"
  show ?case
  proof (cases ev)
    case (Connection c)
    have fresh: "c \<notin> set (liveConnections s)" "c \<notin> set (connects ?es)"
      and d: "distinct (liveConnections s @ connects ?es)"
      using Cons.prems(2) by (auto simp: te Connection)
    have l1: "liveConnections s1 = liveConnections s @ [c]"
      using s1 fresh(1) by (auto simp: Connection on_connection_def ws_send_def Set_add_def split: if_splits)
    have "distinct (liveConnections s1 @ connects ?es)"
      using d fresh by (simp add: l1)
    from Cons.IH [OF r this] show ?thesis
      by (simp add: l1 te Connection removed_later_def)
  next
    case (Message c m)
    have l1: "liveConnections s1 = liveConnections s"
      using s1 by (auto simp: Message on_message_live)
    have "distinct (liveConnections s1 @ connects ?es)"
      using Cons.prems(2) by (simp add: l1 te Message)
    from Cons.IH [OF r this] show ?thesis
      by (simp add: l1 te Message removed_later_def)
  next
    case (Close c)
    have l1: "liveConnections s1 = removeAll c (liveConnections s)"
      using s1 by (auto simp: Close on_close_def Set_delete_def)
    have "distinct (liveConnections s1 @ connects ?es)"
      using Cons.prems(2) by (auto simp: l1 te Close distinct_removeAll)
    from Cons.IH [OF r this] show ?thesis
      by (auto simp: l1 te Close removed_later_def removeAll_filter_not_eq intro: filter_cong)
  next
    case (Error c)
    have l1: "liveConnections s1 = removeAll c (liveConnections s)"
      using s1 by (auto simp: Error on_error_def Set_delete_def)
    have "distinct (liveConnections s1 @ connects ?es)"
      using Cons.prems(2) by (auto simp: l1 te Error distinct_removeAll)
    from Cons.IH [OF r this] show ?thesis
      by (auto simp: l1 te Error removed_later_def removeAll_filter_not_eq intro: filter_cong)
  qed
qed

lemma dispatch_live_only:
  "liveConnections s1 = liveConnections s2 \<Longrightarrow>
   (\<exists>a b. dispatch J T s1 ev = Returned a \<and> dispatch J T s2 ev = Returned b
          \<and> liveConnections a = liveConnections b)
   \<or> (\<exists>e a b. dispatch J T s1 ev = Threw e a \<and> dispatch J T s2 ev = Threw e b
          \<and> liveConnections a = liveConnections b)"
  by (cases ev) (auto simp: on_connection_def ws_send_def on_message_live on_close_def on_error_def)

lemma run_without_messages:
  "liveConnections s1 = liveConnections s2 \<Longrightarrow>
   liveConnections (final (run J (without_messages tes) s1)) = liveConnections (final (run J tes s2))"
proof (induction tes arbitrary: s1 s2)
  case Nil
  then show ?case by (simp add: without_messages_def)
next
  case (Cons te tes)
  obtain T ev where te: "te = (T, ev)" by (cases te)
  show ?case
  proof (cases "is_message ev")
    case True
    then obtain c m where ev: "ev = Message c m" by (cases ev) auto
    have "liveConnections s1 = liveConnections (on_message J T s2 c m)"
      using Cons.prems by (simp add: on_message_live)
    from Cons.IH [OF this] show ?thesis
      by (simp add: te ev without_messages_def)
  next
    case False
    then have w: "without_messages ((T, ev) # tes) = (T, ev) # without_messages tes"
      by (simp add: without_messages_def)
    from dispatch_live_only [OF Cons.prems, of J T ev] show ?thesis
    proof (elim disjE exE conjE)
      fix a b
      assume "dispatch J T s1 ev = Returned a" "dispatch J T s2 ev = Returned b"
        "liveConnections a = liveConnections b"
      then show ?thesis using Cons.IH [of a b] by (simp add: w te)
    next
      fix e a b
      assume "dispatch J T s1 ev = Threw e a" "dispatch J T s2 ev = Threw e b"
        "liveConnections a = liveConnections b"
      then show ?thesis by (simp add: w te)
    qed
  qed
qed

text \<open>
  C5, as the code has it. When every connect event brings a new handle and no welcome
  send throws, the count is the number of connect events minus the number of connected
  handles that had a close or error event afterwards, each handle counted once however
  many such events it had; dropping the message events from the sequence leaves the
  count the same.
\<close>

theorem count_is_connects_minus_departed:
  assumes "run J tes initial = Returned s"
      and "distinct (connects (map snd tes))"
  shows "activeCount s = length (connects (map snd tes)) - length (departed (map snd tes))
       \<and> activeCount (final (run J (without_messages tes) initial)) = activeCount s"
proof -
  have "liveConnections s = survivors (map snd tes)"
    using run_live_characterised [OF assms(1)] assms(2) by (simp add: initial_def)
  then have "activeCount s = length (connects (map snd tes)) - length (departed (map snd tes))"
    by (simp add: activeCount_def Set_size_def connects_split)
  moreover have "liveConnections (final (run J (without_messages tes) initial)) = liveConnections s"
    using run_without_messages [of initial initial J tes] assms(1) by simp
  then have "activeCount (final (run J (without_messages tes) initial)) = activeCount s"
    by (simp add: activeCount_def)
  ultimately show ?thesis by blast
qed

theorem count_is_connects_minus_departed_witness:
  "run sample_json busy_room initial =
     Returned \<lparr>liveConnections = [2, 3],
               sent = [Delivery 1 welcome_text Welcome, Delivery 2 welcome_text Welcome,
                       Delivery 1 ''null'' Broadcast, Delivery 2 ''null'' Broadcast,
                       Delivery 3 welcome_text Welcome]\<rparr>
   \<and> distinct (connects (map snd busy_room))
   \<and> connects (map snd busy_room) = [1, 2, 3]
   \<and> departed (map snd busy_room) = [1]
   \<and> activeCount \<lparr>liveConnections = [2, 3],
               sent = [Delivery 1 welcome_text Welcome, Delivery 2 welcome_text Welcome,
                       Delivery 1 ''null'' Broadcast, Delivery 2 ''null'' Broadcast,
                       Delivery 3 welcome_text Welcome]\<rparr> = 3 - 1"
proof -
  have h1: "run sample_json busy_room initial =
     Returned \<lparr>liveConnections = [2, 3],
               sent = [Delivery 1 welcome_text Welcome, Delivery 2 welcome_text Welcome,
                       Delivery 1 ''null'' Broadcast, Delivery 2 ''null'' Broadcast,
                       Delivery 3 welcome_text Welcome]\<rparr>"
    by (simp add: busy_room_def initial_def on_connection_def on_message_def on_close_def
          on_error_def ws_send_def Set_add_def Set_delete_def all_open_def sample_json_def
          sample_parse_def sample_stringify_def welcome_message_def)
  have c: "connects (map snd busy_room) = [1, 2, 3]"
    by (simp add: busy_room_def)
  have h2: "distinct (connects (map snd busy_room))"
    by (simp add: c)
  have d: "departed (map snd busy_room) = [1]"
    by (simp add: busy_room_def removed_later_def)
  from count_is_connects_minus_departed [OF h1 h2]
  have "activeCount \<lparr>liveConnections = [2, 3],
               sent = [Delivery 1 welcome_text Welcome, Delivery 2 welcome_text Welcome,
                       Delivery 1 ''null'' Broadcast, Delivery 2 ''null'' Broadcast,
                       Delivery 3 welcome_text Welcome]\<rparr> = 3 - 1"
    by (simp add: c d)
  with h1 h2 c d show ?thesis by blast
qed

text \<open>
  An error event followed by a close event for the same connection removes it once:
  two connects and two removal events leave one connection, where the difference of
  the event counts is 0.
\<close>

theorem count_counterexample:
  "activeCount (final (run sample_json
       [(all_open, Connection 1), (all_open, Connection 2),
        (all_open, Error 1), (all_open, Close 1)] initial)) = 1
   \<and> liveConnections (final (run sample_json
       [(all_open, Connection 1), (all_open, Connection 2),
        (all_open, Error 1), (all_open, Close 1)] initial)) = [2]
   \<and> spec_activeCount [Connection 1, Connection 2, Error 1, Close 1] = 0"
  by (simp add: initial_def on_connection_def on_close_def on_error_def ws_send_def Set_add_def
        Set_delete_def Set_size_def activeCount_def spec_activeCount_def all_open_def)

end
